theory Spec2Isabelle
  imports Main "HOL-Library.Word"
begin

section \<open>The worker's CRDT document (worker/worker.go)\<close>

text \<open>
  The embedding follows \<^verbatim>\<open>src/worker/worker.go\<close>. Only the fields of \<^verbatim>\<open>Worker\<close> that the
  document code reads or writes are kept (\<^verbatim>\<open>workerID\<close>, \<^verbatim>\<open>crdt\<close>, \<^verbatim>\<open>localOps\<close>); the
  network handles and the logger play no part in it. Go's \<^verbatim>\<open>int\<close> is taken as the 64-bit
  signed integer of the usual platforms: a \<open>64 word\<close>, read with \<open>sint\<close>.

  Every stored element is a pointer to a freshly allocated copy
  (\<^verbatim>\<open>addOpAndIncrementCounter\<close>), and documents are created by \<^verbatim>\<open>newSession\<close> or decoded
  from a peer, so no two keys share an object: the maps hold values, and a write through
  a pointer obtained from a map is an update of the map at that key.
\<close>

subsection \<open>Data\<close>

record Element =
  SessionID :: string
  ClientID :: string
  Deleted :: bool
  ID :: string
  PrevID :: string
  NextID :: string
  Text :: string

record CRDT =
  Elements :: "string \<rightharpoonup> Element"
  CrdtFirstID :: string
  NextOpNumber :: "64 word"

record Worker =
  workerID :: "64 word"
  crdt :: "string \<rightharpoonup> CRDT"
  localOps :: "Element list"

text \<open>\<^verbatim>\<open>type NoCRDTError string\<close>, the only error value the file declares.\<close>

datatype go_error = NoCRDTError string

text \<open>
  A run-time panic: the only one this code can raise is the dereference of a nil
  \<^verbatim>\<open>*Element\<close> read from a map at an absent key. A call yields \<open>None\<close> when it does not
  return (the tie-break loop and the walk can cycle on a cyclic document),
  \<open>Some (Inl p)\<close> when it panics and \<open>Some (Inr x)\<close> when it returns \<open>x\<close>.
\<close>

datatype panic = NilDereference

definition INITIAL_ID :: string where
  "INITIAL_ID = ''12345''"

subsection \<open>strconv.Itoa and strconv.Atoi\<close>

text \<open>
  The two library functions the identifier scheme rests on, after the Go standard
  library: \<^verbatim>\<open>Itoa\<close> prints a signed decimal numeral; \<^verbatim>\<open>Atoi\<close> reads an optional sign and
  decimal digits, and the code drops its error, so what is left is the value returned
  beside the error: 0 on a syntax error, the nearest bound of the 64-bit range when the
  numeral is out of range.
\<close>

definition digitChar :: "nat \<Rightarrow> char" where
  "digitChar d = ''0123456789'' ! d"

fun digits :: "nat \<Rightarrow> string" where
  "digits n = (if n < 10 then [digitChar n] else digits (n div 10) @ [digitChar (n mod 10)])"

declare digits.simps [simp del]

definition Itoa :: "int \<Rightarrow> string" where
  "Itoa i = (if i < 0 then CHR ''-'' # digits (nat (- i)) else digits (nat i))"

definition digitVal :: "char \<Rightarrow> nat option" where
  "digitVal c = map_of (zip ''0123456789'' [0, 1, 2, 3, 4, 5, 6, 7, 8, 9]) c"

datatype parsed = Parsed nat | SyntaxError | RangeError

fun parseUint :: "nat \<Rightarrow> string \<Rightarrow> parsed" where
  "parseUint n [] = Parsed n"
| "parseUint n (c # cs) =
     (case digitVal c of
        None \<Rightarrow> SyntaxError
      | Some d \<Rightarrow>
          if n \<ge> (2 ^ 64 - 1) div 10 + 1 then RangeError
          else if n * 10 + d > 2 ^ 64 - 1 then RangeError
          else parseUint (n * 10 + d) cs)"

definition Atoi :: "string \<Rightarrow> int" where
  "Atoi s =
     (case s of
        [] \<Rightarrow> 0
      | c # cs \<Rightarrow>
          (let neg = (c = CHR ''-'');
               body = (if c = CHR ''+'' \<or> c = CHR ''-'' then cs else s)
           in if body = [] then 0
              else (case parseUint 0 body of
                      SyntaxError \<Rightarrow> 0
                    | RangeError \<Rightarrow> (if neg then - (2 ^ 63) else 2 ^ 63 - 1)
                    | Parsed un \<Rightarrow>
                        if \<not> neg \<and> un \<ge> 2 ^ 63 then 2 ^ 63 - 1
                        else if neg \<and> un > 2 ^ 63 then - (2 ^ 63)
                        else if neg then - int un else int un)))"

text \<open>
  The identifier \<^verbatim>\<open>addRight\<close> mints:
  \<^verbatim>\<open>strconv.Itoa(crdt.NextOpNumber) + strconv.Itoa(w.workerID)\<close>.
\<close>

definition mintID :: "int \<Rightarrow> int \<Rightarrow> string" where
  "mintID counter wid = Itoa counter @ Itoa wid"

subsection \<open>The walk: getMessage\<close>

text \<open>
  \<^verbatim>\<open>getMessage\<close> follows \<^verbatim>\<open>NextID\<close> from \<^verbatim>\<open>CrdtFirstID\<close> until a lookup yields nil and
  returns the concatenated texts (the lines it prints on the way are not modelled).
\<close>

partial_function (option) getMessageLoop ::
  "(string \<rightharpoonup> Element) \<Rightarrow> Element option \<Rightarrow> string \<Rightarrow> string option" where
  "getMessageLoop els firstOp buffer =
     (case firstOp of
        None \<Rightarrow> Some buffer
      | Some e \<Rightarrow> getMessageLoop els (els (NextID e)) (buffer @ Text e))"

definition getMessage :: "CRDT \<Rightarrow> string option" where
  "getMessage d = getMessageLoop (Elements d) (Elements d (CrdtFirstID d)) ''''"

subsection \<open>The insert resolver\<close>

definition prevIDExists :: "Worker \<Rightarrow> string \<Rightarrow> string \<Rightarrow> bool" where
  "prevIDExists w prevID sessionID =
     (case crdt w sessionID of
        Some d \<Rightarrow> prevID \<in> dom (Elements d) \<or> prevID = INITIAL_ID
      | None \<Rightarrow> False)"

definition firstCRDTEntry :: "string \<Rightarrow> CRDT \<Rightarrow> bool \<times> CRDT" where
  "firstCRDTEntry opID d =
     (if Elements d = Map.empty then (True, d\<lparr>CrdtFirstID := opID\<rparr>) else (False, d))"

definition replacingFirstOp ::
  "Element \<Rightarrow> string \<Rightarrow> string \<Rightarrow> CRDT \<Rightarrow> panic + (bool \<times> Element \<times> CRDT)" where
  "replacingFirstOp newElement prevID opID d =
     (if prevID = INITIAL_ID then
        (case Elements d (CrdtFirstID d) of
           None \<Rightarrow> Inl NilDereference
         | Some firstOp \<Rightarrow>
             Inr (True,
                  newElement\<lparr>NextID := CrdtFirstID d\<rparr>,
                  d\<lparr>Elements := (Elements d)(CrdtFirstID d \<mapsto> firstOp\<lparr>PrevID := opID\<rparr>),
                    CrdtFirstID := opID\<rparr>))
      else Inr (False, newElement, d))"

text \<open>
  The loop of \<^verbatim>\<open>samePlaceInsertCheck\<close>. Its condition reads
  \<^verbatim>\<open>crdt.Elements[prevOp.NextID].ClientID\<close> only when \<^verbatim>\<open>nextOpID >= newOpID\<close> holds; its body
  looks the next element up under \<^verbatim>\<open>strconv.Itoa(nextOpID)\<close> and reads \<^verbatim>\<open>prevOp.NextID\<close>
  of what it found.
\<close>

partial_function (option) samePlaceLoop ::
  "(string \<rightharpoonup> Element) \<Rightarrow> string \<Rightarrow> int \<Rightarrow> Element \<Rightarrow> int \<Rightarrow> (panic + Element) option" where
  "samePlaceLoop els clientID newOpID prevOp nextOpID =
     (if nextOpID \<ge> newOpID then
        (case els (NextID prevOp) of
           None \<Rightarrow> Some (Inl NilDereference)
         | Some nxt \<Rightarrow>
             if clientID \<noteq> ClientID nxt then
               (case els (Itoa nextOpID) of
                  None \<Rightarrow> Some (Inl NilDereference)
                | Some p \<Rightarrow> samePlaceLoop els clientID newOpID p (Atoi (NextID p)))
             else Some (Inr prevOp))
      else Some (Inr prevOp))"

definition samePlaceInsertCheck ::
  "Element \<Rightarrow> string \<Rightarrow> string \<Rightarrow> CRDT \<Rightarrow> (panic + string) option" where
  "samePlaceInsertCheck newElement prevID opID d =
     (case Elements d prevID of
        None \<Rightarrow> Some (Inl NilDereference)
      | Some prevOp \<Rightarrow>
          if NextID prevOp \<noteq> '''' then
            (case samePlaceLoop (Elements d) (ClientID newElement) (Atoi opID) prevOp
                    (Atoi (NextID prevOp)) of
               None \<Rightarrow> None
             | Some (Inl p) \<Rightarrow> Some (Inl p)
             | Some (Inr r) \<Rightarrow> Some (Inr (ID r)))
          else Some (Inr prevID))"

definition normalInsert ::
  "Element \<Rightarrow> string \<Rightarrow> string \<Rightarrow> CRDT \<Rightarrow> (panic + (Element \<times> CRDT)) option" where
  "normalInsert newElement prevID opID d =
     (case samePlaceInsertCheck newElement prevID opID d of
        None \<Rightarrow> None
      | Some (Inl p) \<Rightarrow> Some (Inl p)
      | Some (Inr newPrevID) \<Rightarrow>
          (case Elements d newPrevID of
             None \<Rightarrow> Some (Inl NilDereference)
           | Some prevOp \<Rightarrow>
               Some (Inr (newElement\<lparr>NextID := NextID prevOp\<rparr>,
                          d\<lparr>Elements := (Elements d)(newPrevID \<mapsto> prevOp\<lparr>NextID := opID\<rparr>)\<rparr>))))"

text \<open>
  \<^verbatim>\<open>addOpAndIncrementCounter\<close> stores a copy of the element under \<^verbatim>\<open>opID\<close>, appends the
  copy to \<^verbatim>\<open>w.localOps\<close> and increments the counter. Of the worker it touches
  \<^verbatim>\<open>localOps\<close> only, which is passed and returned.
\<close>

definition addOpAndIncrementCounter ::
  "Element list \<Rightarrow> Element \<Rightarrow> string \<Rightarrow> CRDT \<Rightarrow> Element list \<times> CRDT" where
  "addOpAndIncrementCounter ops newElement opID d =
     (ops @ [newElement],
      d\<lparr>Elements := (Elements d)(opID \<mapsto> newElement), NextOpNumber := NextOpNumber d + 1\<rparr>)"

definition addToCRDT ::
  "Element list \<Rightarrow> Element \<Rightarrow> CRDT \<Rightarrow> (panic + (Element list \<times> CRDT)) option" where
  "addToCRDT ops newElement d =
     (case firstCRDTEntry (ID newElement) d of
        (True, d1) \<Rightarrow> Some (Inr (addOpAndIncrementCounter ops newElement (ID newElement) d1))
      | (False, d1) \<Rightarrow>
          (case replacingFirstOp newElement (PrevID newElement) (ID newElement) d1 of
             Inl p \<Rightarrow> Some (Inl p)
           | Inr (True, e2, d2) \<Rightarrow>
               Some (Inr (addOpAndIncrementCounter ops e2 (ID e2) d2))
           | Inr (False, e2, d2) \<Rightarrow>
               (case normalInsert e2 (PrevID e2) (ID e2) d2 of
                  None \<Rightarrow> None
                | Some (Inl p) \<Rightarrow> Some (Inl p)
                | Some (Inr (e3, d3)) \<Rightarrow>
                    Some (Inr (addOpAndIncrementCounter ops e3 (ID e3) d3)))))"

subsection \<open>The two entry points\<close>

text \<open>
  The element \<^verbatim>\<open>addRight\<close> builds:
  \<^verbatim>\<open>&Element{sessionID, strconv.Itoa(w.workerID), false, opID, prevID, "", content}\<close>.
\<close>

definition newInsert :: "string \<Rightarrow> string \<Rightarrow> string \<Rightarrow> string \<Rightarrow> string \<Rightarrow> Element" where
  "newInsert sessionID clientID opID prevID content =
     \<lparr>SessionID = sessionID, ClientID = clientID, Deleted = False, ID = opID,
      PrevID = prevID, NextID = '''', Text = content\<rparr>"

text \<open>
  \<^verbatim>\<open>addRight\<close> returns a Go \<^verbatim>\<open>error\<close> (here \<open>go_error option\<close>, \<open>None\<close> for nil) beside the
  worker it leaves behind.
\<close>

definition addRight ::
  "Worker \<Rightarrow> string \<Rightarrow> string \<Rightarrow> string \<Rightarrow> (panic + (go_error option \<times> Worker)) option" where
  "addRight w prevID content sessionID =
     (if \<not> prevIDExists w prevID sessionID then Some (Inr (None, w))
      else
        (case crdt w sessionID of
           None \<Rightarrow> Some (Inl NilDereference)
         | Some d \<Rightarrow>
             (let opID = mintID (sint (NextOpNumber d)) (sint (workerID w));
                  newElement = newInsert sessionID (Itoa (sint (workerID w))) opID prevID content
              in (case addToCRDT (localOps w) newElement d of
                    None \<Rightarrow> None
                  | Some (Inl p) \<Rightarrow> Some (Inl p)
                  | Some (Inr (ops, d')) \<Rightarrow>
                      Some (Inr (None, w\<lparr>crdt := (crdt w)(sessionID \<mapsto> d'), localOps := ops\<rparr>))))))"

fun ApplyIncomingOps :: "Worker \<Rightarrow> Element list \<Rightarrow> (panic + Worker) option" where
  "ApplyIncomingOps w [] = Some (Inr w)"
| "ApplyIncomingOps w (op # incomingOps) =
     (case crdt w (SessionID op) of
        None \<Rightarrow> ApplyIncomingOps w incomingOps
      | Some d \<Rightarrow>
          (case Elements d (ID op) of
             Some present \<Rightarrow> ApplyIncomingOps w incomingOps
           | None \<Rightarrow>
               (case addToCRDT (localOps w) op d of
                  None \<Rightarrow> None
                | Some (Inl p) \<Rightarrow> Some (Inl p)
                | Some (Inr (ops, d')) \<Rightarrow>
                    ApplyIncomingOps
                      (w\<lparr>crdt := (crdt w)(SessionID op \<mapsto> d'), localOps := ops\<rparr>)
                      incomingOps)))"

text \<open>\<^verbatim>\<open>newSession\<close> installs \<^verbatim>\<open>&CRDT{make(map[string]*Element), "", 1}\<close>.\<close>

definition newCRDT :: CRDT where
  "newCRDT = \<lparr>Elements = Map.empty, CrdtFirstID = '''', NextOpNumber = 1\<rparr>"

subsection \<open>The shape of a document\<close>


fun chain :: "(string \<rightharpoonup> Element) \<Rightarrow> string list \<Rightarrow> string \<Rightarrow> bool" where
  "chain els [] final = True"
| "chain els [k] final = (case els k of None \<Rightarrow> False | Some e \<Rightarrow> ID e = k \<and> NextID e = final)"
| "chain els (k # k' # ks) final =
     ((case els k of None \<Rightarrow> False | Some e \<Rightarrow> ID e = k \<and> NextID e = k') \<and>
      chain els (k' # ks) final)"



fun backLinked :: "(string \<rightharpoonup> Element) \<Rightarrow> string list \<Rightarrow> bool" where
  "backLinked els [] = True"
| "backLinked els [k] = True"
| "backLinked els (k # k' # ks) =
     ((case els k' of None \<Rightarrow> False | Some z \<Rightarrow> PrevID z = k) \<and> backLinked els (k' # ks))"


section \<open>Evaluation\<close>

text \<open>The equations that compute the model on concrete documents.\<close>

lemmas strconv_eval =
  Atoi_def Itoa_def mintID_def digitVal_def digitChar_def digits.simps

lemmas resolver_eval =
  addToCRDT_def firstCRDTEntry_def replacingFirstOp_def normalInsert_def
  samePlaceInsertCheck_def samePlaceLoop.simps addOpAndIncrementCounter_def
  INITIAL_ID_def newCRDT_def newInsert_def

lemmas walk_eval = getMessage_def getMessageLoop.simps

section \<open>The cases of addToCRDT\<close>

lemma addToCRDT_first:
  assumes "Elements d = Map.empty"
  shows "addToCRDT ops e d =
    Some (Inr (ops @ [e],
               d\<lparr>CrdtFirstID := ID e, Elements := [ID e \<mapsto> e],
                 NextOpNumber := NextOpNumber d + 1\<rparr>))"
  using assms by (simp add: addToCRDT_def firstCRDTEntry_def addOpAndIncrementCounter_def)

lemma addToCRDT_replace:
  assumes "Elements d \<noteq> Map.empty" "PrevID e = INITIAL_ID"
  shows "addToCRDT ops e d =
    (case Elements d (CrdtFirstID d) of
       None \<Rightarrow> Some (Inl NilDereference)
     | Some f \<Rightarrow>
         Some (Inr (ops @ [e\<lparr>NextID := CrdtFirstID d\<rparr>],
               d\<lparr>Elements := (Elements d)(CrdtFirstID d \<mapsto> f\<lparr>PrevID := ID e\<rparr>,
                                            ID e \<mapsto> e\<lparr>NextID := CrdtFirstID d\<rparr>),
                 CrdtFirstID := ID e, NextOpNumber := NextOpNumber d + 1\<rparr>)))"
  using assms
  by (simp add: addToCRDT_def firstCRDTEntry_def replacingFirstOp_def
      addOpAndIncrementCounter_def split: option.splits)

lemma addToCRDT_normal:
  assumes "Elements d \<noteq> Map.empty" "PrevID e \<noteq> INITIAL_ID"
  shows "addToCRDT ops e d =
    (case samePlaceInsertCheck e (PrevID e) (ID e) d of
       None \<Rightarrow> None
     | Some (Inl p) \<Rightarrow> Some (Inl p)
     | Some (Inr q) \<Rightarrow>
        (case Elements d q of
           None \<Rightarrow> Some (Inl NilDereference)
         | Some p \<Rightarrow>
             Some (Inr (ops @ [e\<lparr>NextID := NextID p\<rparr>],
               d\<lparr>Elements := (Elements d)(q \<mapsto> p\<lparr>NextID := ID e\<rparr>,
                                            ID e \<mapsto> e\<lparr>NextID := NextID p\<rparr>),
                 NextOpNumber := NextOpNumber d + 1\<rparr>))))"
  using assms
  by (simp add: addToCRDT_def firstCRDTEntry_def replacingFirstOp_def normalInsert_def
      addOpAndIncrementCounter_def split: option.splits sum.splits)

section \<open>The reference scenario\<close>

text \<open>
  C7. Starting from the empty document of \<^verbatim>\<open>newSession\<close>, applying
  insert(id="11", prevID=sentinel, clientID="1", text="a") sets \<^verbatim>\<open>CrdtFirstID\<close> to "11";
  then applying insert(id="12", prevID="11", clientID="1", text="b") makes the walk yield
  "ab"; then applying insert(id="21", prevID="11", clientID="2", text="c") makes the walk
  yield "acb". This holds in every session and whatever the buffer held before.
\<close>

theorem reference_scenario:
  "\<exists>ops1 d1 ops2 d2 ops3 d3.
     addToCRDT ops0
       \<lparr>SessionID = sid, ClientID = ''1'', Deleted = False, ID = ''11'', PrevID = INITIAL_ID,
        NextID = '''', Text = ''a''\<rparr> newCRDT = Some (Inr (ops1, d1)) \<and>
     CrdtFirstID d1 = ''11'' \<and>
     addToCRDT ops1
       \<lparr>SessionID = sid, ClientID = ''1'', Deleted = False, ID = ''12'', PrevID = ''11'',
        NextID = '''', Text = ''b''\<rparr> d1 = Some (Inr (ops2, d2)) \<and>
     getMessage d2 = Some ''ab'' \<and>
     addToCRDT ops2
       \<lparr>SessionID = sid, ClientID = ''2'', Deleted = False, ID = ''21'', PrevID = ''11'',
        NextID = '''', Text = ''c''\<rparr> d2 = Some (Inr (ops3, d3)) \<and>
     getMessage d3 = Some ''acb''"
  by (simp add: resolver_eval strconv_eval walk_eval)

section \<open>Local inserts on a session the worker does not hold\<close>

text \<open>
  C10. For every session for which the worker holds no document, \<^verbatim>\<open>addRight\<close> returns nil
  and leaves the worker (its documents with their counters, and its buffer of local
  operations) as it was, for every reference and content.
\<close>

theorem addRight_unknown_session:
  "crdt w sessionID = None \<Longrightarrow> addRight w prevID content sessionID = Some (Inr (None, w))"
  by (simp add: addRight_def prevIDExists_def)

theorem addRight_unknown_session_witness:
  "addRight \<lparr>workerID = 3, crdt = [''known'' \<mapsto> newCRDT], localOps = []\<rparr>
     INITIAL_ID ''x'' ''other'' =
   Some (Inr (None, \<lparr>workerID = 3, crdt = [''known'' \<mapsto> newCRDT], localOps = []\<rparr>))"
  using addRight_unknown_session
    [of "\<lparr>workerID = 3, crdt = [''known'' \<mapsto> newCRDT], localOps = []\<rparr>" "''other''"
        INITIAL_ID "''x''"]
  by simp

section \<open>Identifiers\<close>

lemma digitChar_inj: "a < 10 \<Longrightarrow> b < 10 \<Longrightarrow> digitChar a = digitChar b \<Longrightarrow> a = b"
proof -
  have d: "distinct ''0123456789''" by simp
  assume "a < 10" "b < 10" "digitChar a = digitChar b"
  then show ?thesis
    using d unfolding digitChar_def by (simp add: nth_eq_iff_index_eq)
qed

lemma digits_length: "0 < length (digits n)"
  by (induction n rule: digits.induct) (subst digits.simps, simp)

lemma digits_length2: "10 \<le> n \<Longrightarrow> 2 \<le> length (digits n)"
proof -
  assume "10 \<le> n"
  then have "digits n = digits (n div 10) @ [digitChar (n mod 10)]"
    by (subst digits.simps) simp
  moreover have "1 \<le> length (digits (n div 10))"
    using digits_length [of "n div 10"] by linarith
  ultimately show ?thesis by simp
qed

lemma digits_inj: "digits m = digits n \<Longrightarrow> m = n"
proof (induction m arbitrary: n rule: digits.induct)
  case (1 m)
  show ?case
  proof (cases "m < 10")
    case small: True
    show ?thesis
    proof (cases "n < 10")
      case True
      with small "1.prems" show ?thesis
        by (simp add: digits.simps [of m] digits.simps [of n] digitChar_inj)
    next
      case False
      then have "2 \<le> length (digits n)" by (simp add: digits_length2)
      moreover from small have "length (digits m) = 1" by (simp add: digits.simps [of m])
      ultimately show ?thesis using "1.prems" by simp
    qed
  next
    case big: False
    show ?thesis
    proof (cases "n < 10")
      case True
      then have "length (digits n) = 1" by (simp add: digits.simps [of n])
      moreover from big have "2 \<le> length (digits m)" by (simp add: digits_length2)
      ultimately show ?thesis using "1.prems" by simp
    next
      case False
      with big "1.prems" have e: "digits (m div 10) = digits (n div 10)"
        and c: "digitChar (m mod 10) = digitChar (n mod 10)"
        by (simp_all add: digits.simps [of m] digits.simps [of n])
      from "1.IH" [OF big e] have "m div 10 = n div 10" .
      moreover from c have "m mod 10 = n mod 10" by (simp add: digitChar_inj)
      ultimately show ?thesis by (metis div_mult_mod_eq)
    qed
  qed
qed

lemma digitChar_not_minus: "d < 10 \<Longrightarrow> digitChar d \<noteq> CHR ''-''"
proof -
  have "CHR ''-'' \<notin> set ''0123456789''" by simp
  moreover assume "d < 10"
  then have "d < length ''0123456789''" by simp
  then have "''0123456789'' ! d \<in> set ''0123456789''" by (rule nth_mem)
  then have "digitChar d \<in> set ''0123456789''" by (simp only: digitChar_def)
  ultimately show ?thesis by metis
qed

lemma digits_hd: "hd (digits n) \<noteq> CHR ''-''"
proof (induction n rule: digits.induct)
  case (1 n)
  show ?case
  proof (cases "n < 10")
    case True
    then show ?thesis by (simp add: digits.simps [of n] digitChar_not_minus)
  next
    case False
    with "1.IH" digits_length [of "n div 10"] show ?thesis
      by (simp add: digits.simps [of n] hd_append)
  qed
qed

lemma Itoa_inj: "Itoa i = Itoa j \<Longrightarrow> i = j"
proof -
  assume e: "Itoa i = Itoa j"
  have ne: "\<And>n. digits n \<noteq> []" using digits_length by (metis length_greater_0_conv)
  have h: "\<And>m n. CHR ''-'' # digits m \<noteq> digits n"
    using digits_hd ne by (metis list.sel(1))
  show ?thesis
  proof (cases "i < 0")
    case True
    show ?thesis
    proof (cases "j < 0")
      case jn: True
      with True e have "digits (nat (- i)) = digits (nat (- j))" by (simp add: Itoa_def)
      then have "nat (- i) = nat (- j)" by (rule digits_inj)
      with True jn show ?thesis by simp
    next
      case False
      with True e h show ?thesis by (simp add: Itoa_def)
    qed
  next
    case False
    show ?thesis
    proof (cases "j < 0")
      case True
      with False e h [of "nat (- j)" "nat i"] show ?thesis by (simp add: Itoa_def)
    next
      case jp: False
      with False e have "digits (nat i) = digits (nat j)" by (simp add: Itoa_def)
      then have "nat i = nat j" by (rule digits_inj)
      with False jp show ?thesis by simp
    qed
  qed
qed

text \<open>
  \<^verbatim>\<open>Itoa\<close> is injective, so the minted identifier tells the counter and the worker
  apart as soon as one of the two numerals has a known width.
\<close>

lemma mintID_injective_same_width:
  fixes c1 c2 w1 w2 :: nat
  assumes "length (Itoa (int c1)) = length (Itoa (int c2)) \<or>
           length (Itoa (int w1)) = length (Itoa (int w2))"
    and "(c1, w1) \<noteq> (c2, w2)"
  shows "mintID (int c1) (int w1) \<noteq> mintID (int c2) (int w2)"
proof
  assume "mintID (int c1) (int w1) = mintID (int c2) (int w2)"
  with assms(1) have "Itoa (int c1) = Itoa (int c2) \<and> Itoa (int w1) = Itoa (int w2)"
    unfolding mintID_def by simp
  then have "int c1 = int c2" "int w1 = int w2" by (auto dest: Itoa_inj)
  with assms(2) show False by simp
qed

text \<open>
  C8 asks that two distinct (counter, worker identifier) pairs of natural numbers never
  mint the same identifier. \<^verbatim>\<open>addRight\<close> appends the worker's numeral to the counter's
  with nothing between them, so the split is lost: counter 1 at worker 11 and counter 11
  at worker 1 both mint "111". The identifier is the key of \<^verbatim>\<open>crdt.Elements\<close> and the
  duplicate test of \<^verbatim>\<open>ApplyIncomingOps\<close>: a worker that holds worker 11's "111" skips
  worker 1's operation "111" as already merged.
\<close>

theorem mintID_collision:
  "(1 :: nat, 11 :: nat) \<noteq> (11, 1) \<and> mintID (int 1) (int 11) = ''111'' \<and>
   mintID (int 11) (int 1) = ''111'' \<and>
   ApplyIncomingOps
     \<lparr>workerID = 2,
      crdt = [''s'' \<mapsto> \<lparr>Elements = [''111'' \<mapsto> newInsert ''s'' ''11'' ''111'' INITIAL_ID ''a''],
                           CrdtFirstID = ''111'', NextOpNumber = 2\<rparr>],
      localOps = []\<rparr>
     [newInsert ''s'' ''1'' ''111'' INITIAL_ID ''z''] =
   Some (Inr
     \<lparr>workerID = 2,
      crdt = [''s'' \<mapsto> \<lparr>Elements = [''111'' \<mapsto> newInsert ''s'' ''11'' ''111'' INITIAL_ID ''a''],
                           CrdtFirstID = ''111'', NextOpNumber = 2\<rparr>],
      localOps = []\<rparr>)"
  by (simp add: strconv_eval newInsert_def)

section \<open>Merging an operation twice\<close>

lemma replacingFirstOp_result:
  "replacingFirstOp e p i d = Inr (b, e2, d2) \<Longrightarrow>
     ID e2 = ID e \<and> PrevID e2 = PrevID e \<and> ClientID e2 = ClientID e"
  by (auto simp: replacingFirstOp_def split: if_splits option.splits)

lemma normalInsert_result:
  "normalInsert e p i d = Some (Inr (e3, d3)) \<Longrightarrow>
     ID e3 = ID e \<and> PrevID e3 = PrevID e \<and> ClientID e3 = ClientID e"
  by (auto simp: normalInsert_def split: option.splits sum.splits)

lemma addToCRDT_stores:
  assumes "addToCRDT ops e d = Some (Inr (ops', d'))"
  shows "ID e \<in> dom (Elements d')"
  using assms
  by (auto simp: addToCRDT_def firstCRDTEntry_def addOpAndIncrementCounter_def
      split: if_splits sum.splits option.splits bool.splits prod.splits
      dest!: replacingFirstOp_result normalInsert_result)

lemma ApplyIncomingOps_once_then_skip:
  assumes "ApplyIncomingOps w [op] = Some (Inr w')"
  shows "ApplyIncomingOps w' [op] = Some (Inr w')"
proof (cases "crdt w (SessionID op)")
  case None
  with assms show ?thesis by simp
next
  case (Some d)
  show ?thesis
  proof (cases "Elements d (ID op)")
    case present: (Some a)
    with Some assms show ?thesis by simp
  next
    case None
    with Some assms obtain ops d' where
      a: "addToCRDT (localOps w) op d = Some (Inr (ops, d'))"
      and w': "w' = w\<lparr>crdt := (crdt w)(SessionID op \<mapsto> d'), localOps := ops\<rparr>"
      by (auto split: option.splits sum.splits)
    from addToCRDT_stores [OF a] w' show ?thesis by (auto split: option.splits)
  qed
qed

text \<open>
  C6. For every worker state and every operation delivered through \<^verbatim>\<open>ApplyIncomingOps\<close>,
  delivering the operation twice has exactly the outcome of delivering it once; after a
  delivery that returned, a second delivery returns the same worker (every document with
  its element map, links, first identifier and counter, and the buffer); and an operation
  whose identifier is already in the element map of its session's document is skipped
  with no change of state.
\<close>

theorem merge_idempotent:
  "ApplyIncomingOps w [op, op] = ApplyIncomingOps w [op] \<and>
   (\<forall>w'. ApplyIncomingOps w [op] = Some (Inr w') \<longrightarrow>
         ApplyIncomingOps w' [op] = Some (Inr w')) \<and>
   (\<forall>d. crdt w (SessionID op) = Some d \<and> ID op \<in> dom (Elements d) \<longrightarrow>
        ApplyIncomingOps w [op] = Some (Inr w))"
proof (intro conjI allI impI)
  show "ApplyIncomingOps w [op, op] = ApplyIncomingOps w [op]"
  proof (cases "ApplyIncomingOps w [op]")
    case None
    then show ?thesis by (auto split: option.splits sum.splits)
  next
    case (Some r)
    show ?thesis
    proof (cases r)
      case (Inl p)
      with Some show ?thesis by (auto split: option.splits sum.splits)
    next
      case (Inr w')
      with Some have s: "ApplyIncomingOps w [op] = Some (Inr w')" by simp
      from ApplyIncomingOps_once_then_skip [OF s] s show ?thesis
        by (auto split: option.splits sum.splits)
    qed
  qed
next
  fix w' assume "ApplyIncomingOps w [op] = Some (Inr w')"
  then show "ApplyIncomingOps w' [op] = Some (Inr w')"
    by (rule ApplyIncomingOps_once_then_skip)
next
  fix d assume "crdt w (SessionID op) = Some d \<and> ID op \<in> dom (Elements d)"
  then show "ApplyIncomingOps w [op] = Some (Inr w)" by (auto split: option.splits)
qed

theorem merge_idempotent_witness:
  "ApplyIncomingOps \<lparr>workerID = 2, crdt = [''s'' \<mapsto> newCRDT], localOps = []\<rparr>
     [newInsert ''s'' ''1'' ''11'' INITIAL_ID ''a''] =
   Some (Inr \<lparr>workerID = 2,
     crdt = [''s'' \<mapsto> \<lparr>Elements = [''11'' \<mapsto> newInsert ''s'' ''1'' ''11'' INITIAL_ID ''a''],
                          CrdtFirstID = ''11'', NextOpNumber = 2\<rparr>],
     localOps = [newInsert ''s'' ''1'' ''11'' INITIAL_ID ''a'']\<rparr>) \<and>
   ApplyIncomingOps \<lparr>workerID = 2, crdt = [''s'' \<mapsto> newCRDT], localOps = []\<rparr>
     [newInsert ''s'' ''1'' ''11'' INITIAL_ID ''a'', newInsert ''s'' ''1'' ''11'' INITIAL_ID ''a''] =
   Some (Inr \<lparr>workerID = 2,
     crdt = [''s'' \<mapsto> \<lparr>Elements = [''11'' \<mapsto> newInsert ''s'' ''1'' ''11'' INITIAL_ID ''a''],
                          CrdtFirstID = ''11'', NextOpNumber = 2\<rparr>],
     localOps = [newInsert ''s'' ''1'' ''11'' INITIAL_ID ''a'']\<rparr>)"
proof -
  let ?w = "\<lparr>workerID = 2, crdt = [''s'' \<mapsto> newCRDT], localOps = []\<rparr>"
  let ?op = "newInsert ''s'' ''1'' ''11'' INITIAL_ID ''a''"
  have once: "ApplyIncomingOps ?w [?op] =
    Some (Inr \<lparr>workerID = 2,
      crdt = [''s'' \<mapsto> \<lparr>Elements = [''11'' \<mapsto> ?op], CrdtFirstID = ''11'', NextOpNumber = 2\<rparr>],
      localOps = [?op]\<rparr>)"
    by (simp add: resolver_eval)
  from merge_idempotent [of ?w ?op] have "ApplyIncomingOps ?w [?op, ?op] = ApplyIncomingOps ?w [?op]"
    by blast
  with once show ?thesis by simp
qed

section \<open>Inserts whose reference is unknown\<close>

text \<open>
  The local path checks the reference first (\<^verbatim>\<open>prevIDExists\<close>): an unknown one makes
  \<^verbatim>\<open>addRight\<close> return nil with the worker unchanged. The merge path has no such check: on
  a document that has elements, \<^verbatim>\<open>samePlaceInsertCheck\<close> looks the unknown reference up,
  gets nil and reads its \<^verbatim>\<open>NextID\<close>.
\<close>

lemma addRight_unknown_reference:
  "crdt w sid = Some d \<Longrightarrow> prevID \<notin> dom (Elements d) \<Longrightarrow> prevID \<noteq> INITIAL_ID \<Longrightarrow>
     addRight w prevID content sid = Some (Inr (None, w))"
  by (simp add: addRight_def prevIDExists_def)

lemma ApplyIncomingOps_unknown_reference:
  assumes "crdt w (SessionID op) = Some d" "Elements d \<noteq> Map.empty"
    and "ID op \<notin> dom (Elements d)"
    and "PrevID op \<notin> dom (Elements d)" "PrevID op \<noteq> INITIAL_ID"
  shows "ApplyIncomingOps w (op # incomingOps) = Some (Inl NilDereference)"
proof -
  from assms(4) have "Elements d (PrevID op) = None" by auto
  then have "samePlaceInsertCheck op (PrevID op) (ID op) d = Some (Inl NilDereference)"
    by (simp add: samePlaceInsertCheck_def)
  with assms(2,5) have "addToCRDT (localOps w) op d = Some (Inl NilDereference)"
    by (simp add: addToCRDT_normal)
  with assms(1,3) show ?thesis by (auto split: option.splits)
qed

text \<open>
  C3 asks that an insert whose reference is neither in the document nor the sentinel be
  rejected with the document unchanged, on the local path and on the merge path. On the
  merge path the code does not do it. A worker holding the document "11" that merges an
  operation with the unknown reference "999" panics with a nil dereference, where
  \<^verbatim>\<open>addRight\<close> with the same reference returns nil and changes nothing; and a worker
  holding an empty document applies the operation and makes it the first element.
\<close>

theorem unknown_reference_merge_panics:
  "''999'' \<notin> dom (Elements
      \<lparr>Elements = [''11'' \<mapsto> newInsert ''s'' ''1'' ''11'' INITIAL_ID ''a''],
       CrdtFirstID = ''11'', NextOpNumber = 2\<rparr>) \<and> ''999'' \<noteq> INITIAL_ID \<and>
   ApplyIncomingOps
     \<lparr>workerID = 1,
      crdt = [''s'' \<mapsto> \<lparr>Elements = [''11'' \<mapsto> newInsert ''s'' ''1'' ''11'' INITIAL_ID ''a''],
                           CrdtFirstID = ''11'', NextOpNumber = 2\<rparr>],
      localOps = []\<rparr>
     [newInsert ''s'' ''2'' ''12'' ''999'' ''x''] = Some (Inl NilDereference) \<and>
   addRight
     \<lparr>workerID = 1,
      crdt = [''s'' \<mapsto> \<lparr>Elements = [''11'' \<mapsto> newInsert ''s'' ''1'' ''11'' INITIAL_ID ''a''],
                           CrdtFirstID = ''11'', NextOpNumber = 2\<rparr>],
      localOps = []\<rparr> ''999'' ''x'' ''s'' =
   Some (Inr (None,
     \<lparr>workerID = 1,
      crdt = [''s'' \<mapsto> \<lparr>Elements = [''11'' \<mapsto> newInsert ''s'' ''1'' ''11'' INITIAL_ID ''a''],
                           CrdtFirstID = ''11'', NextOpNumber = 2\<rparr>],
      localOps = []\<rparr>)) \<and>
   ApplyIncomingOps \<lparr>workerID = 1, crdt = [''s'' \<mapsto> newCRDT], localOps = []\<rparr>
     [newInsert ''s'' ''2'' ''12'' ''999'' ''x''] =
   Some (Inr \<lparr>workerID = 1,
     crdt = [''s'' \<mapsto> \<lparr>Elements = [''12'' \<mapsto> newInsert ''s'' ''2'' ''12'' ''999'' ''x''],
                          CrdtFirstID = ''12'', NextOpNumber = 2\<rparr>],
     localOps = [newInsert ''s'' ''2'' ''12'' ''999'' ''x'']\<rparr>)"
  by (simp add: addRight_def prevIDExists_def resolver_eval strconv_eval)

section \<open>Two concurrent inserts after the same last element\<close>

lemma Itoa_nonempty: "Itoa i \<noteq> []"
  using digits_length [of "nat i"] digits_length [of "nat (- i)"] by (auto simp: Itoa_def)

lemma Atoi_empty: "Atoi [] = 0"
  by (simp add: Atoi_def)

lemma insert_after_last:
  assumes "Elements d a = Some A" "NextID A = ''''" "a \<noteq> INITIAL_ID" "PrevID e = a"
  shows "addToCRDT ops e d =
    Some (Inr (ops @ [e\<lparr>NextID := ''''\<rparr>],
               d\<lparr>Elements := (Elements d)(a \<mapsto> A\<lparr>NextID := ID e\<rparr>,
                                            ID e \<mapsto> e\<lparr>NextID := ''''\<rparr>),
                 NextOpNumber := NextOpNumber d + 1\<rparr>))"
proof -
  from assms(1) have ne: "Elements d \<noteq> Map.empty" by auto
  with assms show ?thesis
    by (simp add: addToCRDT_def firstCRDTEntry_def replacingFirstOp_def normalInsert_def
        samePlaceInsertCheck_def addOpAndIncrementCounter_def)
qed

text \<open>
  For a reference that is not the sentinel the tie-break does its work. Let a document
  hold an element \<open>A\<close> under its own identifier \<open>a\<close>, not the sentinel, with empty
  \<^verbatim>\<open>NextID\<close>, and let \<open>x\<close> and \<open>y\<close> both reference \<open>a\<close>, carry distinct client identifiers and
  identifiers new to the document, \<open>x\<close>'s the numeral \<^verbatim>\<open>Itoa\<close> prints for its value and
  larger than \<open>y\<close>'s positive one. Then both orders of application return the same
  document, in which \<open>A\<close> is followed by \<open>x\<close> and \<open>x\<close> by \<open>y\<close>.
\<close>

lemma tie_break_deterministic:
  assumes anchor: "Elements d a = Some A" "ID A = a" "NextID A = ''''" "a \<noteq> INITIAL_ID"
    and refs: "PrevID x = a" "PrevID y = a"
    and clients: "ClientID x \<noteq> ClientID y"
    and numeric: "Itoa (Atoi (ID x)) = ID x" "0 < Atoi (ID y)" "Atoi (ID y) < Atoi (ID x)"
    and fresh: "ID x \<notin> dom (Elements d)" "ID y \<notin> dom (Elements d)"
  shows "\<exists>ops1 d1 ops2 d2 opsxy opsyx d'.
     addToCRDT ops x d = Some (Inr (ops1, d1)) \<and>
     addToCRDT ops1 y d1 = Some (Inr (opsxy, d')) \<and>
     addToCRDT ops y d = Some (Inr (ops2, d2)) \<and>
     addToCRDT ops2 x d2 = Some (Inr (opsyx, d')) \<and>
     d' = d\<lparr>Elements := (Elements d)(a \<mapsto> A\<lparr>NextID := ID x\<rparr>,
                                       ID x \<mapsto> x\<lparr>NextID := ID y\<rparr>,
                                       ID y \<mapsto> y\<lparr>NextID := ''''\<rparr>),
             NextOpNumber := NextOpNumber d + 2\<rparr>"
proof -
  let ?d' = "d\<lparr>Elements := (Elements d)(a \<mapsto> A\<lparr>NextID := ID x\<rparr>,
                                       ID x \<mapsto> x\<lparr>NextID := ID y\<rparr>,
                                       ID y \<mapsto> y\<lparr>NextID := ''''\<rparr>),
             NextOpNumber := NextOpNumber d + 2\<rparr>"
  let ?dx = "d\<lparr>Elements := (Elements d)(a \<mapsto> A\<lparr>NextID := ID x\<rparr>,
                                        ID x \<mapsto> x\<lparr>NextID := ''''\<rparr>),
               NextOpNumber := NextOpNumber d + 1\<rparr>"
  let ?dy = "d\<lparr>Elements := (Elements d)(a \<mapsto> A\<lparr>NextID := ID y\<rparr>,
                                        ID y \<mapsto> y\<lparr>NextID := ''''\<rparr>),
               NextOpNumber := NextOpNumber d + 1\<rparr>"
  from anchor fresh have xa: "ID x \<noteq> a" and ya: "ID y \<noteq> a" by auto
  from numeric have xy: "ID x \<noteq> ID y" by auto
  from numeric(1) have xne: "ID x \<noteq> ''''" using Itoa_nonempty [of "Atoi (ID x)"] by simp
  from numeric(2) have yne: "ID y \<noteq> ''''" using Atoi_empty by auto
  have sx: "addToCRDT ops x d = Some (Inr (ops @ [x\<lparr>NextID := ''''\<rparr>], ?dx))"
    using anchor refs by (simp add: insert_after_last)
  have sy: "addToCRDT ops y d = Some (Inr (ops @ [y\<lparr>NextID := ''''\<rparr>], ?dy))"
    using anchor refs by (simp add: insert_after_last)
  have sxy: "addToCRDT (ops @ [x\<lparr>NextID := ''''\<rparr>]) y ?dx =
      Some (Inr (ops @ [x\<lparr>NextID := ''''\<rparr>, y\<lparr>NextID := ''''\<rparr>], ?d'))"
    using anchor refs clients numeric xa ya xy xne yne
    by (simp add: addToCRDT_def firstCRDTEntry_def replacingFirstOp_def normalInsert_def
        samePlaceInsertCheck_def addOpAndIncrementCounter_def samePlaceLoop.simps Atoi_empty
        fun_upd_twist)
  have syx: "addToCRDT (ops @ [y\<lparr>NextID := ''''\<rparr>]) x ?dy =
      Some (Inr (ops @ [y\<lparr>NextID := ''''\<rparr>, x\<lparr>NextID := ID y\<rparr>], ?d'))"
    using anchor refs clients numeric xa ya xy xne yne
    by (simp add: addToCRDT_def firstCRDTEntry_def replacingFirstOp_def normalInsert_def
        samePlaceInsertCheck_def addOpAndIncrementCounter_def samePlaceLoop.simps Atoi_empty
        fun_upd_twist)
  from sx sy sxy syx show ?thesis by blast
qed

text \<open>
  C5 asks that two inserts of distinct clients with distinct numeric identifiers that
  both reference an element \<open>A\<close> with empty \<^verbatim>\<open>NextID\<close> end up in the same order whichever is
  applied first, the larger identifier right after \<open>A\<close>. The code does not deliver this
  for the element it stores under "12345": that identifier is the sentinel
  \<^verbatim>\<open>INITIAL_ID\<close>, which the comment on the constant calls a fake identifier, and it is
  also what \<^verbatim>\<open>addRight\<close> mints for worker 2345 at counter 1 (and for worker 5 at counter
  1234). Worker 2345's first insert stores "a" under "12345"; then two merged inserts
  "22" (text x) and "21" (text y) that reference it both go through
  \<^verbatim>\<open>replacingFirstOp\<close>, which compares no identifiers: merged as "22", "21" the walk is
  "yxa", merged as "21", "22" it is "xya", and in neither does an insert follow "a".
\<close>

theorem sentinel_named_anchor_diverges:
  "mintID 1 2345 = INITIAL_ID \<and> mintID 1234 5 = INITIAL_ID \<and>
   addRight \<lparr>workerID = 2345, crdt = [''s'' \<mapsto> newCRDT], localOps = []\<rparr> INITIAL_ID ''a'' ''s'' =
     Some (Inr (None,
       \<lparr>workerID = 2345,
        crdt = [''s'' \<mapsto> \<lparr>Elements = [''12345'' \<mapsto> newInsert ''s'' ''2345'' ''12345'' INITIAL_ID ''a''],
                             CrdtFirstID = ''12345'', NextOpNumber = 2\<rparr>],
        localOps = [newInsert ''s'' ''2345'' ''12345'' INITIAL_ID ''a'']\<rparr>)) \<and>
   ApplyIncomingOps
     \<lparr>workerID = 2345,
      crdt = [''s'' \<mapsto> \<lparr>Elements = [''12345'' \<mapsto> newInsert ''s'' ''2345'' ''12345'' INITIAL_ID ''a''],
                           CrdtFirstID = ''12345'', NextOpNumber = 2\<rparr>],
      localOps = []\<rparr>
     [newInsert ''s'' ''2'' ''22'' ''12345'' ''x'', newInsert ''s'' ''1'' ''21'' ''12345'' ''y''] =
     Some (Inr
       \<lparr>workerID = 2345,
        crdt = [''s'' \<mapsto>
          \<lparr>Elements =
             [''12345'' \<mapsto> (newInsert ''s'' ''2345'' ''12345'' INITIAL_ID ''a'')\<lparr>PrevID := ''22''\<rparr>,
              ''22'' \<mapsto> (newInsert ''s'' ''2'' ''22'' ''21'' ''x'')\<lparr>NextID := ''12345''\<rparr>,
              ''21'' \<mapsto> (newInsert ''s'' ''1'' ''21'' ''12345'' ''y'')\<lparr>NextID := ''22''\<rparr>],
           CrdtFirstID = ''21'', NextOpNumber = 4\<rparr>],
        localOps = [(newInsert ''s'' ''2'' ''22'' ''12345'' ''x'')\<lparr>NextID := ''12345''\<rparr>,
                    (newInsert ''s'' ''1'' ''21'' ''12345'' ''y'')\<lparr>NextID := ''22''\<rparr>]\<rparr>) \<and>
   getMessage
          \<lparr>Elements =
             [''12345'' \<mapsto> (newInsert ''s'' ''2345'' ''12345'' INITIAL_ID ''a'')\<lparr>PrevID := ''22''\<rparr>,
              ''22'' \<mapsto> (newInsert ''s'' ''2'' ''22'' ''21'' ''x'')\<lparr>NextID := ''12345''\<rparr>,
              ''21'' \<mapsto> (newInsert ''s'' ''1'' ''21'' ''12345'' ''y'')\<lparr>NextID := ''22''\<rparr>],
           CrdtFirstID = ''21'', NextOpNumber = 4\<rparr> = Some ''yxa'' \<and>
   ApplyIncomingOps
     \<lparr>workerID = 2345,
      crdt = [''s'' \<mapsto> \<lparr>Elements = [''12345'' \<mapsto> newInsert ''s'' ''2345'' ''12345'' INITIAL_ID ''a''],
                           CrdtFirstID = ''12345'', NextOpNumber = 2\<rparr>],
      localOps = []\<rparr>
     [newInsert ''s'' ''1'' ''21'' ''12345'' ''y'', newInsert ''s'' ''2'' ''22'' ''12345'' ''x''] =
     Some (Inr
       \<lparr>workerID = 2345,
        crdt = [''s'' \<mapsto>
          \<lparr>Elements =
             [''12345'' \<mapsto> (newInsert ''s'' ''2345'' ''12345'' INITIAL_ID ''a'')\<lparr>PrevID := ''21''\<rparr>,
              ''21'' \<mapsto> (newInsert ''s'' ''1'' ''21'' ''22'' ''y'')\<lparr>NextID := ''12345''\<rparr>,
              ''22'' \<mapsto> (newInsert ''s'' ''2'' ''22'' ''12345'' ''x'')\<lparr>NextID := ''21''\<rparr>],
           CrdtFirstID = ''22'', NextOpNumber = 4\<rparr>],
        localOps = [(newInsert ''s'' ''1'' ''21'' ''12345'' ''y'')\<lparr>NextID := ''12345''\<rparr>,
                    (newInsert ''s'' ''2'' ''22'' ''12345'' ''x'')\<lparr>NextID := ''21''\<rparr>]\<rparr>) \<and>
   getMessage
          \<lparr>Elements =
             [''12345'' \<mapsto> (newInsert ''s'' ''2345'' ''12345'' INITIAL_ID ''a'')\<lparr>PrevID := ''21''\<rparr>,
              ''21'' \<mapsto> (newInsert ''s'' ''1'' ''21'' ''22'' ''y'')\<lparr>NextID := ''12345''\<rparr>,
              ''22'' \<mapsto> (newInsert ''s'' ''2'' ''22'' ''12345'' ''x'')\<lparr>NextID := ''21''\<rparr>],
           CrdtFirstID = ''22'', NextOpNumber = 4\<rparr> = Some ''xya''"
  by (simp add: addRight_def prevIDExists_def resolver_eval strconv_eval walk_eval
      fun_upd_twist Let_def)

section \<open>The walk invariant\<close>











section \<open>Two inserts of one client after the same anchor\<close>




section \<open>Back links\<close>

text \<open>
  C9 asks that every successful insert keep the walk from \<^verbatim>\<open>CrdtFirstID\<close> visiting each
  element once, ending at an element with empty \<^verbatim>\<open>NextID\<close>, and doubly linked: whenever
  \<open>Z\<close> is walked right after \<open>Y\<close>, the \<^verbatim>\<open>PrevID\<close> of \<open>Z\<close> is the identifier of \<open>Y\<close>.
  \<^verbatim>\<open>replacingFirstOp\<close> writes the back link of the element it puts the new one in front
  of; \<^verbatim>\<open>normalInsert\<close> writes no \<^verbatim>\<open>PrevID\<close> at all. In the document "11", "21" of worker
  1 (doubly linked), a third local insert "31" after "11" gives the walk "11", "31",
  "21" in which "21" still has \<^verbatim>\<open>PrevID\<close> "11"; the same element inserted at the sentinel
  gives the walk "31", "11", "21", doubly linked. The copy of "31" that the insert
  buffers carries \<^verbatim>\<open>NextID\<close> "21": merged as the first element of an empty document it is
  stored as it is, and the walk ends at an element whose \<^verbatim>\<open>NextID\<close> is not empty.
\<close>

theorem splice_leaves_stale_back_link:
  "chain [''11'' \<mapsto> (newInsert ''s'' ''1'' ''11'' INITIAL_ID ''a'')\<lparr>NextID := ''21''\<rparr>,
          ''21'' \<mapsto> newInsert ''s'' ''1'' ''21'' ''11'' ''b''] [''11'', ''21''] '''' \<and>
   backLinked [''11'' \<mapsto> (newInsert ''s'' ''1'' ''11'' INITIAL_ID ''a'')\<lparr>NextID := ''21''\<rparr>,
               ''21'' \<mapsto> newInsert ''s'' ''1'' ''21'' ''11'' ''b''] [''11'', ''21''] \<and>
   addToCRDT [] (newInsert ''s'' ''1'' ''31'' ''11'' ''c'')
     \<lparr>Elements = [''11'' \<mapsto> (newInsert ''s'' ''1'' ''11'' INITIAL_ID ''a'')\<lparr>NextID := ''21''\<rparr>,
                  ''21'' \<mapsto> newInsert ''s'' ''1'' ''21'' ''11'' ''b''],
      CrdtFirstID = ''11'', NextOpNumber = 3\<rparr> =
   Some (Inr ([(newInsert ''s'' ''1'' ''31'' ''11'' ''c'')\<lparr>NextID := ''21''\<rparr>],
     \<lparr>Elements = [''11'' \<mapsto> (newInsert ''s'' ''1'' ''11'' INITIAL_ID ''a'')\<lparr>NextID := ''31''\<rparr>,
                  ''31'' \<mapsto> (newInsert ''s'' ''1'' ''31'' ''11'' ''c'')\<lparr>NextID := ''21''\<rparr>,
                  ''21'' \<mapsto> newInsert ''s'' ''1'' ''21'' ''11'' ''b''],
      CrdtFirstID = ''11'', NextOpNumber = 4\<rparr>)) \<and>
   chain [''11'' \<mapsto> (newInsert ''s'' ''1'' ''11'' INITIAL_ID ''a'')\<lparr>NextID := ''31''\<rparr>,
          ''31'' \<mapsto> (newInsert ''s'' ''1'' ''31'' ''11'' ''c'')\<lparr>NextID := ''21''\<rparr>,
          ''21'' \<mapsto> newInsert ''s'' ''1'' ''21'' ''11'' ''b''] [''11'', ''31'', ''21''] '''' \<and>
   \<not> backLinked [''11'' \<mapsto> (newInsert ''s'' ''1'' ''11'' INITIAL_ID ''a'')\<lparr>NextID := ''31''\<rparr>,
                  ''31'' \<mapsto> (newInsert ''s'' ''1'' ''31'' ''11'' ''c'')\<lparr>NextID := ''21''\<rparr>,
                  ''21'' \<mapsto> newInsert ''s'' ''1'' ''21'' ''11'' ''b''] [''11'', ''31'', ''21''] \<and>
   addToCRDT [] (newInsert ''s'' ''1'' ''31'' INITIAL_ID ''c'')
     \<lparr>Elements = [''11'' \<mapsto> (newInsert ''s'' ''1'' ''11'' INITIAL_ID ''a'')\<lparr>NextID := ''21''\<rparr>,
                  ''21'' \<mapsto> newInsert ''s'' ''1'' ''21'' ''11'' ''b''],
      CrdtFirstID = ''11'', NextOpNumber = 3\<rparr> =
   Some (Inr ([(newInsert ''s'' ''1'' ''31'' INITIAL_ID ''c'')\<lparr>NextID := ''11''\<rparr>],
     \<lparr>Elements = [''31'' \<mapsto> (newInsert ''s'' ''1'' ''31'' INITIAL_ID ''c'')\<lparr>NextID := ''11''\<rparr>,
                  ''11'' \<mapsto> (newInsert ''s'' ''1'' ''11'' ''31'' ''a'')\<lparr>NextID := ''21''\<rparr>,
                  ''21'' \<mapsto> newInsert ''s'' ''1'' ''21'' ''11'' ''b''],
      CrdtFirstID = ''31'', NextOpNumber = 4\<rparr>)) \<and>
   chain [''31'' \<mapsto> (newInsert ''s'' ''1'' ''31'' INITIAL_ID ''c'')\<lparr>NextID := ''11''\<rparr>,
          ''11'' \<mapsto> (newInsert ''s'' ''1'' ''11'' ''31'' ''a'')\<lparr>NextID := ''21''\<rparr>,
          ''21'' \<mapsto> newInsert ''s'' ''1'' ''21'' ''11'' ''b''] [''31'', ''11'', ''21''] '''' \<and>
   backLinked [''31'' \<mapsto> (newInsert ''s'' ''1'' ''31'' INITIAL_ID ''c'')\<lparr>NextID := ''11''\<rparr>,
               ''11'' \<mapsto> (newInsert ''s'' ''1'' ''11'' ''31'' ''a'')\<lparr>NextID := ''21''\<rparr>,
               ''21'' \<mapsto> newInsert ''s'' ''1'' ''21'' ''11'' ''b''] [''31'', ''11'', ''21''] \<and>
   addToCRDT [] ((newInsert ''s'' ''1'' ''31'' ''11'' ''c'')\<lparr>NextID := ''21''\<rparr>) newCRDT =
   Some (Inr ([(newInsert ''s'' ''1'' ''31'' ''11'' ''c'')\<lparr>NextID := ''21''\<rparr>],
     \<lparr>Elements = [''31'' \<mapsto> (newInsert ''s'' ''1'' ''31'' ''11'' ''c'')\<lparr>NextID := ''21''\<rparr>],
      CrdtFirstID = ''31'', NextOpNumber = 2\<rparr>)) \<and>
   \<not> chain [''31'' \<mapsto> (newInsert ''s'' ''1'' ''31'' ''11'' ''c'')\<lparr>NextID := ''21''\<rparr>] [''31''] ''''"
  by (simp add: resolver_eval strconv_eval fun_upd_twist)

section \<open>The buffer of local operations\<close>

lemma addToCRDT_appends:
  assumes "addToCRDT ops e d = Some (Inr (ops', d'))"
  shows "\<exists>n. ops' = ops @ [e\<lparr>NextID := n\<rparr>] \<and> Elements d' (ID e) = Some (e\<lparr>NextID := n\<rparr>)"
proof (cases "Elements d = Map.empty")
  case True
  with assms have "ops' = ops @ [e\<lparr>NextID := NextID e\<rparr>] \<and>
      Elements d' (ID e) = Some (e\<lparr>NextID := NextID e\<rparr>)"
    by (auto simp: addToCRDT_first)
  then show ?thesis by blast
next
  case ne: False
  show ?thesis
  proof (cases "PrevID e = INITIAL_ID")
    case True
    with ne assms show ?thesis
      by (auto simp: addToCRDT_replace split: option.splits)
  next
    case False
    with ne assms show ?thesis
      by (auto simp: addToCRDT_normal split: option.splits sum.splits)
  qed
qed

lemma addRight_appends:
  assumes "prevIDExists w prevID sid" "crdt w sid = Some d"
    and "addRight w prevID content sid = Some (Inr (err, w'))"
  shows "\<exists>d' n. crdt w' sid = Some d' \<and>
           localOps w' = localOps w @
             [(newInsert sid (Itoa (sint (workerID w)))
                 (mintID (sint (NextOpNumber d)) (sint (workerID w))) prevID content)\<lparr>NextID := n\<rparr>] \<and>
           Elements d' (mintID (sint (NextOpNumber d)) (sint (workerID w))) =
             Some ((newInsert sid (Itoa (sint (workerID w)))
                 (mintID (sint (NextOpNumber d)) (sint (workerID w))) prevID content)\<lparr>NextID := n\<rparr>)"
proof -
  let ?e = "newInsert sid (Itoa (sint (workerID w)))
                 (mintID (sint (NextOpNumber d)) (sint (workerID w))) prevID content"
  from assms obtain ops d' where a: "addToCRDT (localOps w) ?e d = Some (Inr (ops, d'))"
    and w': "w' = w\<lparr>crdt := (crdt w)(sid \<mapsto> d'), localOps := ops\<rparr>"
    by (auto simp: addRight_def Let_def split: option.splits sum.splits)
  have id: "ID ?e = mintID (sint (NextOpNumber d)) (sint (workerID w))"
    by (simp add: newInsert_def)
  from addToCRDT_appends [OF a] obtain n where
    n1: "ops = localOps w @ [?e\<lparr>NextID := n\<rparr>]"
    and n2: "Elements d' (ID ?e) = Some (?e\<lparr>NextID := n\<rparr>)"
    by blast
  have c: "crdt w' sid = Some d'" using w' by simp
  have l: "localOps w' = localOps w @ [?e\<lparr>NextID := n\<rparr>]" using w' n1 by simp
  have s: "Elements d' (mintID (sint (NextOpNumber d)) (sint (workerID w))) =
             Some (?e\<lparr>NextID := n\<rparr>)"
    using n2 by (simp only: id)
  from c l s show ?thesis by (intro exI conjI)
qed

lemma ApplyIncomingOps_single_appends:
  assumes "crdt w (SessionID op) = Some d" "ID op \<notin> dom (Elements d)"
    and "ApplyIncomingOps w [op] = Some (Inr w')"
  shows "\<exists>d' n. crdt w' (SessionID op) = Some d' \<and>
           localOps w' = localOps w @ [op\<lparr>NextID := n\<rparr>] \<and>
           Elements d' (ID op) = Some (op\<lparr>NextID := n\<rparr>)"
proof -
  from assms(2) have none: "Elements d (ID op) = None" by auto
  with assms(1,3) obtain ops d' where a: "addToCRDT (localOps w) op d = Some (Inr (ops, d'))"
    and w': "w' = w\<lparr>crdt := (crdt w)(SessionID op \<mapsto> d'), localOps := ops\<rparr>"
    by (cases "addToCRDT (localOps w) op d") (auto split: sum.splits)
  from addToCRDT_appends [OF a] obtain n where
    n1: "ops = localOps w @ [op\<lparr>NextID := n\<rparr>]"
    and n2: "Elements d' (ID op) = Some (op\<lparr>NextID := n\<rparr>)"
    by blast
  have c: "crdt w' (SessionID op) = Some d'" using w' by simp
  have l: "localOps w' = localOps w @ [op\<lparr>NextID := n\<rparr>]" using w' n1 by simp
  from c l n2 show ?thesis by (intro exI conjI)
qed

lemma ApplyIncomingOps_skips:
  assumes "crdt w (SessionID op) = None \<or>
           (\<exists>d. crdt w (SessionID op) = Some d \<and> ID op \<in> dom (Elements d))"
  shows "ApplyIncomingOps w [op] = Some (Inr w)"
  using assms
proof
  assume "crdt w (SessionID op) = None"
  then show ?thesis by simp
next
  assume "\<exists>d. crdt w (SessionID op) = Some d \<and> ID op \<in> dom (Elements d)"
  then obtain d x where "crdt w (SessionID op) = Some d" "Elements d (ID op) = Some x" by auto
  then show ?thesis by simp
qed

lemma ApplyIncomingOps_Cons:
  "ApplyIncomingOps w (op # incomingOps) =
     (case ApplyIncomingOps w [op] of
        None \<Rightarrow> None
      | Some (Inl p) \<Rightarrow> Some (Inl p)
      | Some (Inr w1) \<Rightarrow> ApplyIncomingOps w1 incomingOps)"
proof (cases "crdt w (SessionID op)")
  case None
  then show ?thesis by simp
next
  case (Some d)
  show ?thesis
  proof (cases "Elements d (ID op)")
    case present: (Some x)
    with Some show ?thesis by simp
  next
    case None
    with Some show ?thesis
      by (cases "addToCRDT (localOps w) op d") (auto split: sum.splits)
  qed
qed

text \<open>
  \<^verbatim>\<open>addOpAndIncrementCounter\<close> appends to \<^verbatim>\<open>localOps\<close> on every path through \<^verbatim>\<open>addToCRDT\<close>,
  also when the element comes from \<^verbatim>\<open>ApplyIncomingOps\<close>: worker 1 merging an operation of
  client "2" ends with that operation in its buffer.
\<close>

theorem remote_operation_buffered:
  "ApplyIncomingOps \<lparr>workerID = 1, crdt = [''s'' \<mapsto> newCRDT], localOps = []\<rparr>
     [newInsert ''s'' ''2'' ''12'' INITIAL_ID ''x''] =
   Some (Inr \<lparr>workerID = 1,
     crdt = [''s'' \<mapsto> \<lparr>Elements = [''12'' \<mapsto> newInsert ''s'' ''2'' ''12'' INITIAL_ID ''x''],
                          CrdtFirstID = ''12'', NextOpNumber = 2\<rparr>],
     localOps = [newInsert ''s'' ''2'' ''12'' INITIAL_ID ''x'']\<rparr>) \<and>
   ClientID (newInsert ''s'' ''2'' ''12'' INITIAL_ID ''x'') \<noteq> Itoa (sint (1 :: 64 word))"
  by (simp add: resolver_eval strconv_eval)

text \<open>
  C4, as amended. The buffer receives a copy of every element \<^verbatim>\<open>addToCRDT\<close> applies, from
  the local insert path and from the merge path alike.
  \<^item> A call of \<^verbatim>\<open>addRight\<close> whose session is not held or whose reference is unknown
    returns nil and changes nothing.
  \<^item> Any other call of \<^verbatim>\<open>addRight\<close> that returns has appended to the buffer exactly one
    element: the one it built, with this worker's identifier as \<^verbatim>\<open>ClientID\<close> and the
    minted identifier, as it is now stored in the session's document.
  \<^item> A call of \<^verbatim>\<open>ApplyIncomingOps\<close> on one remote operation whose session is held and
    whose identifier is new to the document, if it returns, has appended to the buffer
    exactly that operation, as it is now stored in the document (the stored copy
    differs from the operation in \<^verbatim>\<open>NextID\<close> at most).
  \<^item> An operation whose session is not held or whose identifier is present is skipped
    with no change, so nothing is appended for it.
  \<^item> A batch is its operations merged one after the other.
\<close>

theorem buffer_holds_applied_elements:
  "(addToCRDT ops e da = Some (Inr (ops', da')) \<longrightarrow>
      (\<exists>n. ops' = ops @ [e\<lparr>NextID := n\<rparr>] \<and> Elements da' (ID e) = Some (e\<lparr>NextID := n\<rparr>))) \<and>
   (\<not> prevIDExists w prevID sid \<longrightarrow> addRight w prevID content sid = Some (Inr (None, w))) \<and>
   (prevIDExists w prevID sid \<and> crdt w sid = Some d \<and>
    addRight w prevID content sid = Some (Inr (err, w')) \<longrightarrow>
      (\<exists>d' n. crdt w' sid = Some d' \<and>
         localOps w' = localOps w @
           [(newInsert sid (Itoa (sint (workerID w)))
               (mintID (sint (NextOpNumber d)) (sint (workerID w))) prevID content)\<lparr>NextID := n\<rparr>] \<and>
         Elements d' (mintID (sint (NextOpNumber d)) (sint (workerID w))) =
           Some ((newInsert sid (Itoa (sint (workerID w)))
               (mintID (sint (NextOpNumber d)) (sint (workerID w))) prevID content)\<lparr>NextID := n\<rparr>))) \<and>
   (crdt w (SessionID op) = Some d0 \<and> ID op \<notin> dom (Elements d0) \<and>
    ApplyIncomingOps w [op] = Some (Inr w3) \<longrightarrow>
      (\<exists>d' n. crdt w3 (SessionID op) = Some d' \<and>
         localOps w3 = localOps w @ [op\<lparr>NextID := n\<rparr>] \<and>
         Elements d' (ID op) = Some (op\<lparr>NextID := n\<rparr>))) \<and>
   ((crdt w (SessionID op) = None \<or>
     (\<exists>d1. crdt w (SessionID op) = Some d1 \<and> ID op \<in> dom (Elements d1))) \<longrightarrow>
      ApplyIncomingOps w [op] = Some (Inr w)) \<and>
   ApplyIncomingOps w (op # incomingOps) =
     (case ApplyIncomingOps w [op] of
        None \<Rightarrow> None
      | Some (Inl p) \<Rightarrow> Some (Inl p)
      | Some (Inr w1) \<Rightarrow> ApplyIncomingOps w1 incomingOps)"
proof (intro conjI impI)
  assume "addToCRDT ops e da = Some (Inr (ops', da'))"
  then show "\<exists>n. ops' = ops @ [e\<lparr>NextID := n\<rparr>] \<and> Elements da' (ID e) = Some (e\<lparr>NextID := n\<rparr>)"
    by (rule addToCRDT_appends)
next
  assume "\<not> prevIDExists w prevID sid"
  then show "addRight w prevID content sid = Some (Inr (None, w))" by (simp add: addRight_def)
next
  assume "prevIDExists w prevID sid \<and> crdt w sid = Some d \<and>
    addRight w prevID content sid = Some (Inr (err, w'))"
  then have "prevIDExists w prevID sid" "crdt w sid = Some d"
    "addRight w prevID content sid = Some (Inr (err, w'))" by blast+
  from addRight_appends [OF this] show "\<exists>d' n. crdt w' sid = Some d' \<and>
         localOps w' = localOps w @
           [(newInsert sid (Itoa (sint (workerID w)))
               (mintID (sint (NextOpNumber d)) (sint (workerID w))) prevID content)\<lparr>NextID := n\<rparr>] \<and>
         Elements d' (mintID (sint (NextOpNumber d)) (sint (workerID w))) =
           Some ((newInsert sid (Itoa (sint (workerID w)))
               (mintID (sint (NextOpNumber d)) (sint (workerID w))) prevID content)\<lparr>NextID := n\<rparr>)"
    by blast
next
  assume "crdt w (SessionID op) = Some d0 \<and> ID op \<notin> dom (Elements d0) \<and>
    ApplyIncomingOps w [op] = Some (Inr w3)"
  then have "crdt w (SessionID op) = Some d0" "ID op \<notin> dom (Elements d0)"
    "ApplyIncomingOps w [op] = Some (Inr w3)" by blast+
  from ApplyIncomingOps_single_appends [OF this] show "\<exists>d' n. crdt w3 (SessionID op) = Some d' \<and>
         localOps w3 = localOps w @ [op\<lparr>NextID := n\<rparr>] \<and>
         Elements d' (ID op) = Some (op\<lparr>NextID := n\<rparr>)"
    .
next
  assume "crdt w (SessionID op) = None \<or>
     (\<exists>d1. crdt w (SessionID op) = Some d1 \<and> ID op \<in> dom (Elements d1))"
  then show "ApplyIncomingOps w [op] = Some (Inr w)" by (rule ApplyIncomingOps_skips)
next
  show "ApplyIncomingOps w (op # incomingOps) =
     (case ApplyIncomingOps w [op] of
        None \<Rightarrow> None
      | Some (Inl p) \<Rightarrow> Some (Inl p)
      | Some (Inr w1) \<Rightarrow> ApplyIncomingOps w1 incomingOps)"
    by (rule ApplyIncomingOps_Cons)
qed

theorem buffer_holds_applied_elements_witness:
  "(\<exists>w1. addRight \<lparr>workerID = 1, crdt = [''s'' \<mapsto> newCRDT], localOps = []\<rparr>
            INITIAL_ID ''a'' ''s'' = Some (Inr (None, w1)) \<and>
      (\<exists>d' n. crdt w1 ''s'' = Some d' \<and>
         localOps w1 = [(newInsert ''s'' ''1'' ''11'' INITIAL_ID ''a'')\<lparr>NextID := n\<rparr>] \<and>
         Elements d' ''11'' = Some ((newInsert ''s'' ''1'' ''11'' INITIAL_ID ''a'')\<lparr>NextID := n\<rparr>))) \<and>
   (\<exists>w3. ApplyIncomingOps \<lparr>workerID = 1, crdt = [''s'' \<mapsto> newCRDT], localOps = []\<rparr>
            [newInsert ''s'' ''2'' ''12'' INITIAL_ID ''x''] = Some (Inr w3) \<and>
      (\<exists>d' n. crdt w3 ''s'' = Some d' \<and>
         localOps w3 = [(newInsert ''s'' ''2'' ''12'' INITIAL_ID ''x'')\<lparr>NextID := n\<rparr>] \<and>
         Elements d' ''12'' = Some ((newInsert ''s'' ''2'' ''12'' INITIAL_ID ''x'')\<lparr>NextID := n\<rparr>)))"
proof -
  let ?w = "\<lparr>workerID = 1, crdt = [''s'' \<mapsto> newCRDT], localOps = []\<rparr>"
  let ?op = "newInsert ''s'' ''2'' ''12'' INITIAL_ID ''x''"
  let ?w1 = "\<lparr>workerID = 1,
       crdt = [''s'' \<mapsto> \<lparr>Elements = [''11'' \<mapsto> newInsert ''s'' ''1'' ''11'' INITIAL_ID ''a''],
                            CrdtFirstID = ''11'', NextOpNumber = 2\<rparr>],
       localOps = [newInsert ''s'' ''1'' ''11'' INITIAL_ID ''a'']\<rparr>"
  let ?w3 = "\<lparr>workerID = 1,
       crdt = [''s'' \<mapsto> \<lparr>Elements = [''12'' \<mapsto> ?op], CrdtFirstID = ''12'', NextOpNumber = 2\<rparr>],
       localOps = [?op]\<rparr>"
  have ex: "prevIDExists ?w INITIAL_ID ''s''" by (simp add: prevIDExists_def)
  have held: "crdt ?w ''s'' = Some newCRDT" by simp
  have local: "addRight ?w INITIAL_ID ''a'' ''s'' = Some (Inr (None, ?w1))"
    by (simp add: addRight_def prevIDExists_def resolver_eval strconv_eval Let_def)
  have remote: "ApplyIncomingOps ?w [?op] = Some (Inr ?w3)"
    by (simp add: resolver_eval strconv_eval)
  have pre: "crdt ?w (SessionID ?op) = Some newCRDT \<and> ID ?op \<notin> dom (Elements newCRDT)"
    by (simp add: newInsert_def newCRDT_def)
  note t = buffer_holds_applied_elements
    [where w = ?w and prevID = INITIAL_ID and content = "''a''" and sid = "''s''"
       and d = newCRDT and err = None and w' = ?w1 and op = ?op and ?d0.0 = newCRDT
       and ?w3.0 = ?w3]
  from t ex held local have "\<exists>d' n. crdt ?w1 ''s'' = Some d' \<and>
         localOps ?w1 = localOps ?w @
           [(newInsert ''s'' (Itoa (sint (workerID ?w)))
               (mintID (sint (NextOpNumber newCRDT)) (sint (workerID ?w))) INITIAL_ID ''a'')\<lparr>NextID := n\<rparr>] \<and>
         Elements d' (mintID (sint (NextOpNumber newCRDT)) (sint (workerID ?w))) =
           Some ((newInsert ''s'' (Itoa (sint (workerID ?w)))
               (mintID (sint (NextOpNumber newCRDT)) (sint (workerID ?w))) INITIAL_ID ''a'')\<lparr>NextID := n\<rparr>)"
    by blast
  then have a: "\<exists>d' n. crdt ?w1 ''s'' = Some d' \<and>
         localOps ?w1 = [(newInsert ''s'' ''1'' ''11'' INITIAL_ID ''a'')\<lparr>NextID := n\<rparr>] \<and>
         Elements d' ''11'' = Some ((newInsert ''s'' ''1'' ''11'' INITIAL_ID ''a'')\<lparr>NextID := n\<rparr>)"
    by (simp add: strconv_eval newCRDT_def)
  from t pre remote have "\<exists>d' n. crdt ?w3 (SessionID ?op) = Some d' \<and>
         localOps ?w3 = localOps ?w @ [?op\<lparr>NextID := n\<rparr>] \<and>
         Elements d' (ID ?op) = Some (?op\<lparr>NextID := n\<rparr>)"
    by blast
  then have b: "\<exists>d' n. crdt ?w3 ''s'' = Some d' \<and>
         localOps ?w3 = [?op\<lparr>NextID := n\<rparr>] \<and>
         Elements d' ''12'' = Some (?op\<lparr>NextID := n\<rparr>)"
    by (simp add: newInsert_def)
  from local a remote b show ?thesis by blast
qed

section \<open>Merging the same operations in two orders\<close>

text \<open>
  C1 asks that two documents that merged the same operations, in whatever orders, walk
  the same. For inserts at the sentinel the code does not deliver this:
  \<^verbatim>\<open>replacingFirstOp\<close> puts every such element in front of the current first one and makes
  no comparison of identifiers, unlike \<^verbatim>\<open>samePlaceInsertCheck\<close> for the other references.
  A worker holding an empty document that merges "11" (text a) and then "12" (text b),
  both at the sentinel, walks "ba"; merging them in the other order it walks "ab".
\<close>

theorem sentinel_inserts_diverge:
  "ApplyIncomingOps \<lparr>workerID = 3, crdt = [''s'' \<mapsto> newCRDT], localOps = []\<rparr>
     [newInsert ''s'' ''1'' ''11'' INITIAL_ID ''a'', newInsert ''s'' ''2'' ''12'' INITIAL_ID ''b''] =
   Some (Inr \<lparr>workerID = 3,
     crdt = [''s'' \<mapsto>
       \<lparr>Elements = [''11'' \<mapsto> (newInsert ''s'' ''1'' ''11'' INITIAL_ID ''a'')\<lparr>PrevID := ''12''\<rparr>,
                    ''12'' \<mapsto> (newInsert ''s'' ''2'' ''12'' INITIAL_ID ''b'')\<lparr>NextID := ''11''\<rparr>],
        CrdtFirstID = ''12'', NextOpNumber = 3\<rparr>],
     localOps = [newInsert ''s'' ''1'' ''11'' INITIAL_ID ''a'',
                 (newInsert ''s'' ''2'' ''12'' INITIAL_ID ''b'')\<lparr>NextID := ''11''\<rparr>]\<rparr>) \<and>
   getMessage
       \<lparr>Elements = [''11'' \<mapsto> (newInsert ''s'' ''1'' ''11'' INITIAL_ID ''a'')\<lparr>PrevID := ''12''\<rparr>,
                    ''12'' \<mapsto> (newInsert ''s'' ''2'' ''12'' INITIAL_ID ''b'')\<lparr>NextID := ''11''\<rparr>],
        CrdtFirstID = ''12'', NextOpNumber = 3\<rparr> = Some ''ba'' \<and>
   ApplyIncomingOps \<lparr>workerID = 3, crdt = [''s'' \<mapsto> newCRDT], localOps = []\<rparr>
     [newInsert ''s'' ''2'' ''12'' INITIAL_ID ''b'', newInsert ''s'' ''1'' ''11'' INITIAL_ID ''a''] =
   Some (Inr \<lparr>workerID = 3,
     crdt = [''s'' \<mapsto>
       \<lparr>Elements = [''12'' \<mapsto> (newInsert ''s'' ''2'' ''12'' INITIAL_ID ''b'')\<lparr>PrevID := ''11''\<rparr>,
                    ''11'' \<mapsto> (newInsert ''s'' ''1'' ''11'' INITIAL_ID ''a'')\<lparr>NextID := ''12''\<rparr>],
        CrdtFirstID = ''11'', NextOpNumber = 3\<rparr>],
     localOps = [newInsert ''s'' ''2'' ''12'' INITIAL_ID ''b'',
                 (newInsert ''s'' ''1'' ''11'' INITIAL_ID ''a'')\<lparr>NextID := ''12''\<rparr>]\<rparr>) \<and>
   getMessage
       \<lparr>Elements = [''12'' \<mapsto> (newInsert ''s'' ''2'' ''12'' INITIAL_ID ''b'')\<lparr>PrevID := ''11''\<rparr>,
                    ''11'' \<mapsto> (newInsert ''s'' ''1'' ''11'' INITIAL_ID ''a'')\<lparr>NextID := ''12''\<rparr>],
        CrdtFirstID = ''11'', NextOpNumber = 3\<rparr> = Some ''ab''"
  by (simp add: resolver_eval strconv_eval walk_eval fun_upd_twist)

end
